theory Spec2Isabelle
  imports Complex_Main "HOL-Library.Sublist"
begin

section \<open>Values: paths, JSON documents, file contents, exceptions\<close>

text \<open>
  The module \<^verbatim>\<open>Recipe/workflow/auxiliary.py\<close> is a sequence of calls into \<^verbatim>\<open>os\<close>,
  \<^verbatim>\<open>shutil\<close>, \<^verbatim>\<open>zipfile\<close> and \<^verbatim>\<open>json\<close>. The embedding keeps the functions of the
  module as they are written and gives the library calls the behaviour the module relies on.

  A path is the list of its components; \<^verbatim>\<open>os.path.join(root, file)\<close> appends a component.
  The name of an archive entry is a list of components as well (the entry \<^verbatim>\<open>a/b.txt\<close> is
  \<open>[''a'', ''b.txt'']\<close>); only file entries are represented, an entry whose name ends
  in a slash (a directory entry) is not.
\<close>

type_synonym path = "string list"

text \<open>
  What \<^verbatim>\<open>json.load\<close> returns. A Python \<^verbatim>\<open>dict\<close> keeps its keys in insertion order, so
  an object is an association list; the parser never produces a key twice.
  A float is the rational number it denotes (NaN and the infinities are left out).
\<close>

datatype json =
    JNull
  | JBool bool
  | JInt int
  | JFloat rat
  | JStr string
  | JArr "json list"
  | JObj "(string \<times> json) list"

text \<open>
  What \<^verbatim>\<open>json.load\<close> makes of the bytes of a file: the document they denote, or
  \<^verbatim>\<open>json.JSONDecodeError\<close> when they decode to text that is not JSON, or
  \<^verbatim>\<open>UnicodeDecodeError\<close> when they do not decode.
\<close>

datatype load = Parsed json | Malformed | Undecodable

text \<open>
  The bytes of a file or of an archive entry, by what the readers of the module make of
  them. The module reads bytes in three ways: \<^verbatim>\<open>json.load\<close> on the binary stream of an
  archive entry (line 186; the encoding is detected, UTF-8, UTF-16 or UTF-32),
  \<^verbatim>\<open>json.load\<close> on a file opened as UTF-8 text (lines 114-115), and \<^verbatim>\<open>ZipFile\<close>.

    \<^item> \<open>Json j\<close>: the UTF-8 text that \<^verbatim>\<open>json.dump\<close> writes for \<open>j\<close>; both readings
      give \<open>j\<close>.
    \<^item> \<open>Bytes b l\<^sub>1 l\<^sub>2\<close>: other bytes \<open>b\<close> that are not an archive, with what the
      reading of the binary stream (\<open>l\<^sub>1\<close>) and the reading as UTF-8 text (\<open>l\<^sub>2\<close>)
      make of them. JSON in UTF-16 has \<open>l\<^sub>1 = Parsed j\<close> and \<open>l\<^sub>2 \<noteq> Parsed j\<close>; the
      single byte \<^verbatim>\<open>0x80\<close> has \<open>Undecodable\<close> twice; the empty file and the
      text \<^verbatim>\<open>hello\<close> have \<open>Malformed\<close> twice.
    \<^item> \<open>Zip l\<^sub>1 l\<^sub>2 es\<close>: a ZIP archive with its entries in the order of
      \<^verbatim>\<open>namelist()\<close>. Its bytes are not JSON; whether they decode depends on the
      bytes (those of an empty archive do), so the two readings are given with it.
    \<^item> \<open>Partial l\<^sub>1 l\<^sub>2 es\<close>: bytes read from an archive that is still open for
      writing, after the entries \<open>es\<close> were written to it. There is no directory of
      entries yet, so \<^verbatim>\<open>ZipFile\<close> refuses them.
\<close>

datatype content =
    Json json
  | Bytes string load load
  | Zip load load "(path \<times> content) list"
  | Partial load load "(path \<times> content) list"

type_synonym entries = "(path \<times> content) list"

datatype error =
    NameError
  | OSError
  | TypeError
  | KeyError
  | JSONDecodeError
  | UnicodeDecodeError
  | BadZipFile
  | FileNotFoundError
  | FileExistsError
  | NotADirectoryError
  | IsADirectoryError
  | ShutilError

text \<open>The lines the module prints, one constructor for each \<^verbatim>\<open>print\<close> call.\<close>

datatype msg =
    NoZipFound
  | Located path
  | UpdatedZip path
  | ErrorOccurred error
  | CleanedUp
  | InvalidJson path
  | NameHeader
  | NameLine json nat
  | LocationHeader
  | LocationLine json nat
  | ZippingComplete path
  | Unzipping path
  | Extracted path path

subsection \<open>Strings\<close>

fun startswith :: "string \<Rightarrow> string \<Rightarrow> bool" where
  "startswith s [] = True"
| "startswith [] (p # ps) = False"
| "startswith (c # cs) (p # ps) = (c = p \<and> startswith cs ps)"

text \<open>\<^verbatim>\<open>s.endswith(sfx)\<close>\<close>

definition endswith :: "string \<Rightarrow> string \<Rightarrow> bool" where
  "endswith s sfx = startswith (rev s) (rev sfx)"

text \<open>\<^verbatim>\<open>sub in s\<close> for two strings: \<open>sub\<close> occurs in \<open>s\<close> as a contiguous piece.\<close>

fun str_contains :: "string \<Rightarrow> string \<Rightarrow> bool" where
  "str_contains [] sub = (sub = [])"
| "str_contains (c # cs) sub = (startswith (c # cs) sub \<or> str_contains cs sub)"

text \<open>
  The test \<^verbatim>\<open>file_name.endswith(sfx)\<close> on the name of an archive entry looks
  at the last component, as \<^verbatim>\<open>file.endswith(sfx)\<close> does on a name from \<^verbatim>\<open>os.walk\<close>.
\<close>

definition name_endswith :: "path \<Rightarrow> string \<Rightarrow> bool" where
  "name_endswith p sfx = (case rev p of [] \<Rightarrow> False | c # _ \<Rightarrow> endswith c sfx)"

subsection \<open>The JSON operations the module uses\<close>

text \<open>
  \<^verbatim>\<open>json.load\<close>: text that is not JSON raises \<^verbatim>\<open>json.JSONDecodeError\<close>; bytes that
  are not text fail earlier, in the decoding step, with \<^verbatim>\<open>UnicodeDecodeError\<close>, which
  is a \<^verbatim>\<open>ValueError\<close> but not a \<^verbatim>\<open>JSONDecodeError\<close>.
\<close>

fun of_load :: "load \<Rightarrow> error + json" where
  "of_load (Parsed j) = Inr j"
| "of_load Malformed = Inl JSONDecodeError"
| "of_load Undecodable = Inl UnicodeDecodeError"

text \<open>The reading of the binary stream of an archive entry, \<^verbatim>\<open>json.load(f)\<close> of line 186.\<close>

fun stream_load :: "content \<Rightarrow> load" where
  "stream_load (Json j) = Parsed j"
| "stream_load (Bytes b l1 l2) = l1"
| "stream_load (Zip l1 l2 es) = l1"
| "stream_load (Partial l1 l2 es) = l1"

text \<open>
  The reading of a file opened with \<^verbatim>\<open>open(file_path, 'r', encoding='utf-8')\<close>,
  \<^verbatim>\<open>json.load(f)\<close> of line 115.
\<close>

fun text_load :: "content \<Rightarrow> load" where
  "text_load (Json j) = Parsed j"
| "text_load (Bytes b l1 l2) = l2"
| "text_load (Zip l1 l2 es) = l2"
| "text_load (Partial l1 l2 es) = l2"

definition json_load_stream :: "content \<Rightarrow> error + json" where
  "json_load_stream c = of_load (stream_load c)"

definition json_load_text :: "content \<Rightarrow> error + json" where
  "json_load_text c = of_load (text_load c)"

text \<open>
  \<^verbatim>\<open>key in data\<close> with a string \<open>key\<close>: key membership on a dict, element membership
  on a list, substring test on a string, \<^verbatim>\<open>TypeError\<close> on a number, a boolean or
  \<^verbatim>\<open>None\<close>.
\<close>

fun py_in :: "string \<Rightarrow> json \<Rightarrow> error + bool" where
  "py_in k (JObj kvs) = Inr (k \<in> set (map fst kvs))"
| "py_in k (JArr xs) = Inr (JStr k \<in> set xs)"
| "py_in k (JStr s) = Inr (str_contains s k)"
| "py_in k _ = Inl TypeError"

text \<open>\<^verbatim>\<open>data[key]\<close> with a string \<open>key\<close>.\<close>

fun py_getitem :: "json \<Rightarrow> string \<Rightarrow> error + json" where
  "py_getitem (JObj kvs) k = (case map_of kvs k of Some v \<Rightarrow> Inr v | None \<Rightarrow> Inl KeyError)"
| "py_getitem _ k = Inl TypeError"

fun isinstance_dict :: "json \<Rightarrow> bool" where
  "isinstance_dict (JObj _) = True"
| "isinstance_dict _ = False"

text \<open>
  The guard \<^verbatim>\<open>key in data and isinstance(data[key], dict)\<close>; \<^verbatim>\<open>and\<close> evaluates its
  right operand only when the left one is true.
\<close>

definition has_dict :: "json \<Rightarrow> string \<Rightarrow> error + bool" where
  "has_dict data k =
     (case py_in k data of
        Inl e \<Rightarrow> Inl e
      | Inr False \<Rightarrow> Inr False
      | Inr True \<Rightarrow> (case py_getitem data k of
                       Inl e \<Rightarrow> Inl e
                     | Inr v \<Rightarrow> Inr (isinstance_dict v)))"

text \<open>\<^verbatim>\<open>d.get(key, default)\<close> on a dict.\<close>

fun dict_get :: "json \<Rightarrow> string \<Rightarrow> json \<Rightarrow> json" where
  "dict_get (JObj kvs) k dflt = (case map_of kvs k of Some v \<Rightarrow> v | None \<Rightarrow> dflt)"
| "dict_get _ k dflt = dflt"

text \<open>
  \<^verbatim>\<open>d[key] = v\<close> on a dict: an existing key keeps its place, a new key goes to the end.
\<close>

fun alist_set :: "('k \<times> 'v) list \<Rightarrow> 'k \<Rightarrow> 'v \<Rightarrow> ('k \<times> 'v) list" where
  "alist_set [] k v = [(k, v)]"
| "alist_set ((k', v') # kvs) k v =
     (if k' = k then (k, v) # kvs else (k', v') # alist_set kvs k v)"

fun dict_set :: "json \<Rightarrow> string \<Rightarrow> json \<Rightarrow> json" where
  "dict_set (JObj kvs) k v = JObj (alist_set kvs k v)"
| "dict_set j k v = j"

subsection \<open>\<^verbatim>\<open>collections.Counter\<close>\<close>

text \<open>
  A counter is a dict from keys to counts, in insertion order. Keys are compared with
  \<^verbatim>\<open>==\<close> after hashing: \<^verbatim>\<open>True\<close>, \<^verbatim>\<open>1\<close> and \<^verbatim>\<open>1.0\<close> are one key, a list or a dict is
  not hashable and raises \<^verbatim>\<open>TypeError\<close>.
\<close>

datatype hkey = KNone | KNum rat | KStr string

fun hash_key :: "json \<Rightarrow> hkey option" where
  "hash_key JNull = Some KNone"
| "hash_key (JBool b) = Some (KNum (if b then 1 else 0))"
| "hash_key (JInt i) = Some (KNum (of_int i))"
| "hash_key (JFloat r) = Some (KNum r)"
| "hash_key (JStr s) = Some (KStr s)"
| "hash_key (JArr _) = None"
| "hash_key (JObj _) = None"

type_synonym counter = "(json \<times> nat) list"

fun bump :: "counter \<Rightarrow> json \<Rightarrow> counter" where
  "bump [] v = [(v, 1)]"
| "bump ((u, n) # c) v =
     (if hash_key u = hash_key v then (u, n + 1) # c else (u, n) # bump c v)"

text \<open>\<^verbatim>\<open>counter[v] += 1\<close>\<close>

definition counter_incr :: "counter \<Rightarrow> json \<Rightarrow> error + counter" where
  "counter_incr c v = (case hash_key v of None \<Rightarrow> Inl TypeError | Some _ \<Rightarrow> Inr (bump c v))"


section \<open>The Analyzer: \<^verbatim>\<open>analyze_annotations\<close>, on the entries of an archive\<close>

text \<open>
  \<^verbatim>\<open>zip_ref.open(file_name)\<close> looks the name up in the archive's table of names, where a
  later entry of the same name has replaced an earlier one.
\<close>

definition zip_open :: "entries \<Rightarrow> path \<Rightarrow> error + content" where
  "zip_open es n = (case map_of (rev es) n of Some c \<Rightarrow> Inr c | None \<Rightarrow> Inl KeyError)"

text \<open>
  One of the two blocks of lines 187-195: when \<open>data\<close> has the field \<open>outer\<close> and it is
  a dict, the value of \<open>inner\<close> in it, or the sentinel string, is counted.
\<close>

definition count_field :: "json \<Rightarrow> string \<Rightarrow> string \<Rightarrow> string \<Rightarrow> counter \<Rightarrow> error + counter" where
  "count_field data outer inner sentinel c =
     (case has_dict data outer of
        Inl e \<Rightarrow> Inl e
      | Inr False \<Rightarrow> Inr c
      | Inr True \<Rightarrow> (case py_getitem data outer of
                       Inl e \<Rightarrow> Inl e
                     | Inr d \<Rightarrow> counter_incr c (dict_get d inner (JStr sentinel))))"

text \<open>The body of the inner \<^verbatim>\<open>try\<close> (lines 185-195) on the bytes of one entry.\<close>

definition tally_entry :: "content \<Rightarrow> counter \<times> counter \<Rightarrow> error + counter \<times> counter" where
  "tally_entry c st =
     (case json_load_stream c of
        Inl e \<Rightarrow> Inl e
      | Inr data \<Rightarrow>
          (case count_field data ''annotations'' ''name'' ''No name field found'' (fst st) of
             Inl e \<Rightarrow> Inl e
           | Inr nc \<Rightarrow>
               (case count_field data ''sequence'' ''location'' ''No location field found'' (snd st) of
                  Inl e \<Rightarrow> Inl e
                | Inr lc \<Rightarrow> Inr (nc, lc))))"

text \<open>
  The loop of lines 179-199 over \<^verbatim>\<open>namelist()\<close>. It returns the lines printed so far
  and either the two counters or the exception that left the loop: the inner handler
  takes \<^verbatim>\<open>json.JSONDecodeError\<close> only.
\<close>

fun scan :: "entries \<Rightarrow> path list \<Rightarrow> counter \<times> counter \<Rightarrow> msg list
    \<Rightarrow> msg list \<times> (error + counter \<times> counter)" where
  "scan es [] st out = (out, Inr st)"
| "scan es (n # ns) st out =
     (if name_endswith n ''.fusion-data'' then
        (case zip_open es n of
           Inl e \<Rightarrow> (out, Inl e)
         | Inr c \<Rightarrow>
             (case tally_entry c st of
                Inl JSONDecodeError \<Rightarrow> scan es ns st (out @ [InvalidJson n])
              | Inl e \<Rightarrow> (out, Inl e)
              | Inr st' \<Rightarrow> scan es ns st' out))
      else scan es ns st out)"

text \<open>Step 4, lines 206-212: the two tallies, each in insertion order.\<close>

definition print_tallies :: "counter \<times> counter \<Rightarrow> msg list" where
  "print_tallies st =
     NameHeader # map (\<lambda>(v, n). NameLine v n) (fst st)
     @ LocationHeader # map (\<lambda>(v, n). LocationLine v n) (snd st)"

text \<open>
  Lines 172-212 once the archive is open: the operation-level handler prints the error
  and returns, otherwise the tallies are printed.
\<close>

definition analyze_entries :: "entries \<Rightarrow> msg list" where
  "analyze_entries es =
     (case scan es (map fst es) ([], []) [] of
        (out, Inl e) \<Rightarrow> out @ [ErrorOccurred e]
      | (out, Inr st) \<Rightarrow> out @ print_tallies st)"

section \<open>The file system\<close>

text \<open>
  A directory lists its entries in some order, the order in which \<^verbatim>\<open>os.listdir\<close> and
  \<^verbatim>\<open>os.walk\<close> report them; a new entry goes to the end of the list. Symbolic links are
  not represented. The file system is the root node; a path starts at the root.
\<close>

datatype node = File content | Dir "(string \<times> node) list"

fun lookup :: "node \<Rightarrow> path \<Rightarrow> node option" where
  "lookup n [] = Some n"
| "lookup (File _) (x # p) = None"
| "lookup (Dir es) (x # p) = (case map_of es x of None \<Rightarrow> None | Some ch \<Rightarrow> lookup ch p)"

definition path_exists :: "node \<Rightarrow> path \<Rightarrow> bool" where
  "path_exists fs p = (lookup fs p \<noteq> None)"

fun is_dir_node :: "node \<Rightarrow> bool" where
  "is_dir_node (Dir _) = True"
| "is_dir_node (File _) = False"

definition isdir :: "node \<Rightarrow> path \<Rightarrow> bool" where
  "isdir fs p = (case lookup fs p of Some (Dir _) \<Rightarrow> True | _ \<Rightarrow> False)"


text \<open>Reading the bytes of a file (\<^verbatim>\<open>open(p, 'rb')\<close>).\<close>

definition read_file :: "node \<Rightarrow> path \<Rightarrow> error + content" where
  "read_file fs p =
     (case lookup fs p of
        None \<Rightarrow> Inl FileNotFoundError
      | Some (Dir _) \<Rightarrow> Inl IsADirectoryError
      | Some (File c) \<Rightarrow> Inr c)"

text \<open>
  Writing a file (\<^verbatim>\<open>open(p, 'wb')\<close> and the writes): the parent must be a directory, the
  path itself must not be one; an existing file is replaced where it stands.
\<close>

fun write_file :: "node \<Rightarrow> path \<Rightarrow> content \<Rightarrow> error + node" where
  "write_file (File _) [] c = Inr (File c)"
| "write_file (Dir _) [] c = Inl IsADirectoryError"
| "write_file (File _) (x # p) c = Inl NotADirectoryError"
| "write_file (Dir es) (x # p) c =
     (case map_of es x of
        None \<Rightarrow> (if p = [] then Inr (Dir (es @ [(x, File c)])) else Inl FileNotFoundError)
      | Some ch \<Rightarrow>
          (case write_file ch p c of
             Inl e \<Rightarrow> Inl e
           | Inr ch' \<Rightarrow> Inr (Dir (alist_set es x ch'))))"

text \<open>\<^verbatim>\<open>os.makedirs(p)\<close>, without and with \<^verbatim>\<open>exist_ok=True\<close>.\<close>

fun new_dirs :: "path \<Rightarrow> node" where
  "new_dirs [] = Dir []"
| "new_dirs (x # p) = Dir [(x, new_dirs p)]"

fun makedirs :: "bool \<Rightarrow> node \<Rightarrow> path \<Rightarrow> error + node" where
  "makedirs exist_ok (File c) [] = Inl FileExistsError"
| "makedirs exist_ok (Dir es) [] = (if exist_ok then Inr (Dir es) else Inl FileExistsError)"
| "makedirs exist_ok (File c) (x # p) = Inl NotADirectoryError"
| "makedirs exist_ok (Dir es) (x # p) =
     (case map_of es x of
        None \<Rightarrow> Inr (Dir (es @ [(x, new_dirs p)]))
      | Some ch \<Rightarrow>
          (case makedirs exist_ok ch p of
             Inl e \<Rightarrow> Inl e
           | Inr ch' \<Rightarrow> Inr (Dir (alist_set es x ch'))))"

text \<open>Unlinking whatever stands at a path.\<close>

fun remove_at :: "node \<Rightarrow> path \<Rightarrow> node" where
  "remove_at n [] = n"
| "remove_at (File c) (x # p) = File c"
| "remove_at (Dir es) [x] = Dir (filter (\<lambda>e. fst e \<noteq> x) es)"
| "remove_at (Dir es) (x # y # p) =
     (case map_of es x of
        None \<Rightarrow> Dir es
      | Some ch \<Rightarrow> Dir (alist_set es x (remove_at ch (y # p))))"

text \<open>\<^verbatim>\<open>shutil.rmtree(p)\<close> removes a directory and all below it; it refuses a file.\<close>

definition rmtree :: "node \<Rightarrow> path \<Rightarrow> error + node" where
  "rmtree fs p =
     (case lookup fs p of
        None \<Rightarrow> Inl FileNotFoundError
      | Some (File _) \<Rightarrow> Inl NotADirectoryError
      | Some (Dir _) \<Rightarrow> Inr (remove_at fs p))"

text \<open>\<^verbatim>\<open>os.remove(p)\<close> removes a file; it refuses a directory.\<close>

definition os_remove :: "node \<Rightarrow> path \<Rightarrow> error + node" where
  "os_remove fs p =
     (case lookup fs p of
        None \<Rightarrow> Inl FileNotFoundError
      | Some (Dir _) \<Rightarrow> Inl IsADirectoryError
      | Some (File _) \<Rightarrow> Inr (remove_at fs p))"

text \<open>
  \<^verbatim>\<open>os.walk(top)\<close>: top-down, one triple (root, directory names, file names) for each
  directory, the subdirectories in the order of the listing. A top that is not a
  directory yields nothing.
\<close>

definition dirnames :: "(string \<times> node) list \<Rightarrow> string list" where
  "dirnames es = map fst (filter (\<lambda>e. is_dir_node (snd e)) es)"

definition filenames :: "(string \<times> node) list \<Rightarrow> string list" where
  "filenames es = map fst (filter (\<lambda>e. \<not> is_dir_node (snd e)) es)"

fun walk_node :: "path \<Rightarrow> node \<Rightarrow> (path \<times> string list \<times> string list) list"
  and walk_children :: "path \<Rightarrow> (string \<times> node) list \<Rightarrow> (path \<times> string list \<times> string list) list" where
  "walk_node rt (File _) = []"
| "walk_node rt (Dir es) = (rt, dirnames es, filenames es) # walk_children rt es"
| "walk_children rt [] = []"
| "walk_children rt ((x, ch) # es) = walk_node (rt @ [x]) ch @ walk_children rt es"

definition os_walk :: "node \<Rightarrow> path \<Rightarrow> (path \<times> string list \<times> string list) list" where
  "os_walk fs d = (case lookup fs d of None \<Rightarrow> [] | Some n \<Rightarrow> walk_node d n)"

text \<open>
  \<^verbatim>\<open>os.path.relpath(p, start)\<close> for two paths from the root: up from \<open>start\<close> to the
  common ancestor and down to \<open>p\<close>.
\<close>

fun relpath :: "path \<Rightarrow> path \<Rightarrow> path" where
  "relpath (x # p) (y # s) = (if x = y then relpath p s else replicate (Suc (length s)) ''..'' @ x # p)"
| "relpath p s = replicate (length s) ''..'' @ p"


text \<open>No directory lists a name twice.\<close>

fun wf_node :: "node \<Rightarrow> bool"
  and wf_children :: "(string \<times> node) list \<Rightarrow> bool" where
  "wf_node (File _) = True"
| "wf_node (Dir es) = (distinct (map fst es) \<and> wf_children es)"
| "wf_children [] = True"
| "wf_children ((x, ch) # es) = (wf_node ch \<and> wf_children es)"

text \<open>\<^verbatim>\<open>zipfile.ZipFile(p, 'r')\<close>: the entries of the archive at \<open>p\<close>.\<close>

definition zip_read :: "node \<Rightarrow> path \<Rightarrow> error + entries" where
  "zip_read fs p =
     (case read_file fs p of
        Inl e \<Rightarrow> Inl e
      | Inr (Zip l1 l2 es) \<Rightarrow> Inr es
      | Inr _ \<Rightarrow> Inl BadZipFile)"

section \<open>The public operations\<close>

text \<open>
  What a call leaves behind: the file system, the lines printed, and the exception that
  left the function, if one did.
\<close>

record result =
  fs_after :: node
  printed :: "msg list"
  raised :: "error option"

subsection \<open>Step 1 of the Patcher and of the Analyzer: the first \<^verbatim>\<open>-GC.zip\<close>\<close>

text \<open>
  Lines 81-88 and 157-164: the first file name ending in \<^verbatim>\<open>-GC.zip\<close> in the first
  directory of the walk that has one.
\<close>

fun first_gc_zip :: "(path \<times> string list \<times> string list) list \<Rightarrow> path option" where
  "first_gc_zip [] = None"
| "first_gc_zip ((rt, ds, fnames) # rest) =
     (case find (\<lambda>f. endswith f ''-GC.zip'') fnames of
        Some f \<Rightarrow> Some (rt @ [f])
      | None \<Rightarrow> first_gc_zip rest)"

definition locate_gc_zip :: "node \<Rightarrow> path \<Rightarrow> path option" where
  "locate_gc_zip fs data_folder_dir = first_gc_zip (os_walk fs data_folder_dir)"

subsection \<open>\<^verbatim>\<open>analyze_annotations\<close>\<close>

definition analyze_annotations :: "node \<Rightarrow> path \<Rightarrow> result" where
  "analyze_annotations fs data_folder_dir =
     (case locate_gc_zip fs data_folder_dir of
        None \<Rightarrow> \<lparr>fs_after = fs, printed = [NoZipFound], raised = None\<rparr>
      | Some zip_file_path \<Rightarrow>
          \<lparr>fs_after = fs,
           printed = Located zip_file_path #
             (case zip_read fs zip_file_path of
                Inl e \<Rightarrow> [ErrorOccurred e]
              | Inr es \<Rightarrow> analyze_entries es),
           raised = None\<rparr>)"

subsection \<open>Extracting and writing archives\<close>

text \<open>
  \<^verbatim>\<open>ZipFile.extractall(target)\<close> extracts the entries in order. For each one it drops
  the empty components and the components \<^verbatim>\<open>.\<close> and \<^verbatim>\<open>..\<close> from the name, creates
  the directories above the target path when they do not exist, and writes the file.
\<close>

definition sanitize :: "path \<Rightarrow> path" where
  "sanitize p = filter (\<lambda>c. c \<noteq> [] \<and> c \<noteq> ''.'' \<and> c \<noteq> ''..'') p"

definition extract_member :: "node \<Rightarrow> path \<Rightarrow> path \<times> content \<Rightarrow> error + node" where
  "extract_member fs target e =
     (let targetpath = target @ sanitize (fst e);
          upperdirs = butlast targetpath
      in case (if upperdirs \<noteq> [] \<and> \<not> path_exists fs upperdirs
               then makedirs False fs upperdirs else Inr fs) of
           Inl err \<Rightarrow> Inl err
         | Inr fs' \<Rightarrow> write_file fs' targetpath (snd e))"

fun extractall :: "node \<Rightarrow> path \<Rightarrow> entries \<Rightarrow> node \<times> error option" where
  "extractall fs target [] = (fs, None)"
| "extractall fs target (e # es) =
     (case extract_member fs target e of
        Inl err \<Rightarrow> (fs, Some err)
      | Inr fs' \<Rightarrow> extractall fs' target es)"

text \<open>
  The pairs (root, file) that the nested loops
  \<^verbatim>\<open>for root, _, files in os.walk(d): for file in files:\<close> visit, in order.
\<close>

definition walk_pairs :: "node \<Rightarrow> path \<Rightarrow> (path \<times> string) list" where
  "walk_pairs fs d =
     concat (map (\<lambda>(rt, ds, fnames). map (\<lambda>f. (rt, f)) fnames) (os_walk fs d))"

text \<open>
  Two things that \<^verbatim>\<open>ZipFile\<close> does in write mode depend on bytes and sizes that the
  embedding does not hold. The functions that write an archive take them as a parameter:

    \<^item> \<open>archive_loads es\<close>: what the two readings of \<^verbatim>\<open>json.load\<close> make of the bytes
      of the archive written for the entries \<open>es\<close> (the module never reads an archive
      it wrote as JSON);
    \<^item> \<open>self_read es\<close>: what \<^verbatim>\<open>write(file_path, arcname)\<close> gets when \<open>file_path\<close> is
      the path of the archive being written, after the entries \<open>es\<close>. The file grows
      while it is copied into itself: the copy ends and has read some bytes of the
      unfinished archive, given by their two readings, or it ends with an exception
      (\<^verbatim>\<open>OSError\<close> when the file system refuses to grow the file further).
\<close>

record zip_writer =
  archive_loads :: "entries \<Rightarrow> load \<times> load"
  self_read :: "entries \<Rightarrow> error + load \<times> load"

text \<open>
  \<^verbatim>\<open>zipfile.ZipFile(p, 'w', ZIP_DEFLATED)\<close> creates or truncates the file at once: what
  stands at \<open>p\<close> is the empty file from then on. \<^verbatim>\<open>write(file_path, arcname)\<close> reads a
  file and appends it as an entry. Leaving the \<^verbatim>\<open>with\<close> block, also by an exception,
  closes the archive with the entries written.
\<close>

definition zip_open_w :: "node \<Rightarrow> path \<Rightarrow> error + node" where
  "zip_open_w fs zp = write_file fs zp (Bytes [] Malformed Malformed)"

definition zip_source :: "zip_writer \<Rightarrow> node \<Rightarrow> path \<Rightarrow> path \<Rightarrow> entries \<Rightarrow> error + content" where
  "zip_source zw fs zp file_path acc =
     (if file_path = zp then
        (case self_read zw acc of
           Inl e \<Rightarrow> Inl e
         | Inr (l1, l2) \<Rightarrow> Inr (Partial l1 l2 acc))
      else read_file fs file_path)"

fun zip_write_all :: "zip_writer \<Rightarrow> node \<Rightarrow> path \<Rightarrow> (path \<times> path) list \<Rightarrow> entries
    \<Rightarrow> entries \<times> error option" where
  "zip_write_all zw fs zp [] acc = (acc, None)"
| "zip_write_all zw fs zp ((file_path, arcname) # rest) acc =
     (case zip_source zw fs zp file_path acc of
        Inl e \<Rightarrow> (acc, Some e)
      | Inr c \<Rightarrow> zip_write_all zw fs zp rest (acc @ [(arcname, c)]))"

definition zip_write_close :: "zip_writer \<Rightarrow> node \<Rightarrow> path \<Rightarrow> (path \<times> path) list
    \<Rightarrow> node \<times> error option" where
  "zip_write_close zw fs zp pairs =
     (case zip_write_all zw fs zp pairs [] of
        (acc, r) \<Rightarrow>
          (case write_file fs zp (Zip (fst (archive_loads zw acc)) (snd (archive_loads zw acc)) acc) of
             Inl e \<Rightarrow> (fs, Some e)
           | Inr fs' \<Rightarrow> (fs', r)))"

subsection \<open>\<^verbatim>\<open>update_gc_zip_annotation\<close>\<close>

text \<open>\<^verbatim>\<open>data[outer][inner] = v\<close>\<close>

definition set_nested :: "json \<Rightarrow> string \<Rightarrow> string \<Rightarrow> json \<Rightarrow> error + json" where
  "set_nested data outer inner v =
     (case py_getitem data outer of
        Inl e \<Rightarrow> Inl e
      | Inr d \<Rightarrow> (if isinstance_dict d then Inr (dict_set data outer (dict_set d inner v))
                  else Inl TypeError))"

text \<open>One of the two blocks of lines 117-123.\<close>

definition patch_field :: "json \<Rightarrow> string \<Rightarrow> string \<Rightarrow> json \<Rightarrow> error + json" where
  "patch_field data outer inner v =
     (case has_dict data outer of
        Inl e \<Rightarrow> Inl e
      | Inr False \<Rightarrow> Inr data
      | Inr True \<Rightarrow> set_nested data outer inner v)"

definition patch_data :: "json \<Rightarrow> string \<Rightarrow> string \<Rightarrow> error + json" where
  "patch_data data annotation_name sequence_location =
     (case patch_field data ''annotations'' ''name'' (JStr annotation_name) of
        Inl e \<Rightarrow> Inl e
      | Inr data' \<Rightarrow> patch_field data' ''sequence'' ''location'' (JStr sequence_location))"

text \<open>
  Lines 113-127 for one file: read and parse it, update the two fields, write the
  document back (\<^verbatim>\<open>json.dump\<close> writes text that parses to the value it was given).
\<close>

definition patch_file :: "node \<Rightarrow> path \<Rightarrow> string \<Rightarrow> string \<Rightarrow> error + node" where
  "patch_file fs file_path annotation_name sequence_location =
     (case read_file fs file_path of
        Inl e \<Rightarrow> Inl e
      | Inr c \<Rightarrow>
          (case json_load_text c of
             Inl e \<Rightarrow> Inl e
           | Inr data \<Rightarrow>
               (case patch_data data annotation_name sequence_location of
                  Inl e \<Rightarrow> Inl e
                | Inr data' \<Rightarrow> write_file fs file_path (Json data'))))"

text \<open>Step 4, the loop of lines 110-127.\<close>

fun patch_files :: "node \<Rightarrow> (path \<times> string) list \<Rightarrow> string \<Rightarrow> string \<Rightarrow> node \<times> error option" where
  "patch_files fs [] annotation_name sequence_location = (fs, None)"
| "patch_files fs ((rt, file) # rest) annotation_name sequence_location =
     (if endswith file ''.fusion-data'' then
        (case patch_file fs (rt @ [file]) annotation_name sequence_location of
           Inl e \<Rightarrow> (fs, Some e)
         | Inr fs' \<Rightarrow> patch_files fs' rest annotation_name sequence_location)
      else patch_files fs rest annotation_name sequence_location)"

text \<open>Step 5, lines 130-134: the archive is opened for writing, then the walk starts.\<close>

definition rezip :: "zip_writer \<Rightarrow> node \<Rightarrow> path \<Rightarrow> path \<Rightarrow> node \<times> error option" where
  "rezip zw fs zip_file_path temp_dir =
     (case zip_open_w fs zip_file_path of
        Inl e \<Rightarrow> (fs, Some e)
      | Inr fs' \<Rightarrow>
          zip_write_close zw fs' zip_file_path
            (map (\<lambda>(rt, file). (rt @ [file], relpath (rt @ [file]) temp_dir))
               (walk_pairs fs' temp_dir)))"

text \<open>Lines 101-103: a stale temporary directory is removed, then the directory is made.\<close>

definition fresh_temp :: "node \<Rightarrow> path \<Rightarrow> node \<times> error option" where
  "fresh_temp fs temp_dir =
     (case (if path_exists fs temp_dir then rmtree fs temp_dir else Inr fs) of
        Inl e \<Rightarrow> (fs, Some e)
      | Inr fs1 \<Rightarrow>
          (case makedirs False fs1 temp_dir of
             Inl e \<Rightarrow> (fs1, Some e)
           | Inr fs2 \<Rightarrow> (fs2, None)))"

text \<open>
  Lines 104-136, steps 3 to 5: the file system and the lines printed when the rest of
  the \<^verbatim>\<open>try\<close> block is left, and the exception that left it.
\<close>

definition extract_patch_rezip :: "zip_writer \<Rightarrow> node \<Rightarrow> path \<Rightarrow> path \<Rightarrow> string \<Rightarrow> string
    \<Rightarrow> node \<times> msg list \<times> error option" where
  "extract_patch_rezip zw fs2 zip_file_path temp_dir annotation_name sequence_location =
     (case zip_read fs2 zip_file_path of
        Inl e \<Rightarrow> (fs2, [], Some e)
      | Inr es \<Rightarrow>
     (case extractall fs2 temp_dir es of
        (fs3, Some e) \<Rightarrow> (fs3, [], Some e)
      | (fs3, None) \<Rightarrow>
     (case patch_files fs3 (walk_pairs fs3 temp_dir) annotation_name sequence_location of
        (fs4, Some e) \<Rightarrow> (fs4, [], Some e)
      | (fs4, None) \<Rightarrow>
     (case rezip zw fs4 zip_file_path temp_dir of
        (fs5, Some e) \<Rightarrow> (fs5, [], Some e)
      | (fs5, None) \<Rightarrow> (fs5, [UpdatedZip zip_file_path], None)))))"

text \<open>The \<^verbatim>\<open>try\<close> block, lines 98-136.\<close>

definition update_try :: "zip_writer \<Rightarrow> node \<Rightarrow> path \<Rightarrow> path \<Rightarrow> string \<Rightarrow> string
    \<Rightarrow> node \<times> msg list \<times> error option" where
  "update_try zw fs zip_file_path temp_dir annotation_name sequence_location =
     (case fresh_temp fs temp_dir of
        (fs2, Some e) \<Rightarrow> (fs2, [], Some e)
      | (fs2, None) \<Rightarrow>
          extract_patch_rezip zw fs2 zip_file_path temp_dir annotation_name sequence_location)"

text \<open>
  The whole function: every exception of the \<^verbatim>\<open>try\<close> block is an \<^verbatim>\<open>Exception\<close> and
  is printed by the handler; the \<^verbatim>\<open>finally\<close> block removes the temporary directory, and
  an exception raised there leaves the function.
\<close>

definition update_gc_zip_annotation :: "zip_writer \<Rightarrow> node \<Rightarrow> path \<Rightarrow> string \<Rightarrow> string \<Rightarrow> result" where
  "update_gc_zip_annotation zw fs data_folder_dir annotation_name sequence_location =
     (case locate_gc_zip fs data_folder_dir of
        None \<Rightarrow> \<lparr>fs_after = fs, printed = [NoZipFound], raised = None\<rparr>
      | Some zip_file_path \<Rightarrow>
          (let temp_dir = data_folder_dir @ [''temp_unzip''] in
           case update_try zw fs zip_file_path temp_dir annotation_name sequence_location of
             (fs', out, exc) \<Rightarrow>
               (let out' = Located zip_file_path # out
                      @ (case exc of Some e \<Rightarrow> [ErrorOccurred e] | None \<Rightarrow> [])
                in if path_exists fs' temp_dir then
                     (case rmtree fs' temp_dir of
                        Inl e \<Rightarrow> \<lparr>fs_after = fs', printed = out', raised = Some e\<rparr>
                      | Inr fs'' \<Rightarrow>
                          \<lparr>fs_after = fs'', printed = out' @ [CleanedUp], raised = None\<rparr>)
                   else \<lparr>fs_after = fs', printed = out' @ [CleanedUp], raised = None\<rparr>)))"

subsection \<open>\<^verbatim>\<open>zip_folder\<close>\<close>

text \<open>
  Lines 227-240. The list of files is complete before the archive is opened; nothing
  catches an exception here.
\<close>

definition files_to_zip :: "node \<Rightarrow> path \<Rightarrow> (path \<times> path) list" where
  "files_to_zip fs output_folder =
     map (\<lambda>(rt, file). (rt @ [file], relpath (rt @ [file]) output_folder))
       (filter (\<lambda>(rt, file). file \<noteq> ''holder.gitignore'') (walk_pairs fs output_folder))"

definition zip_folder :: "zip_writer \<Rightarrow> node \<Rightarrow> path \<Rightarrow> path \<Rightarrow> result" where
  "zip_folder zw fs output_folder zip_name =
     (let files = files_to_zip fs output_folder in
      case zip_open_w fs zip_name of
        Inl e \<Rightarrow> \<lparr>fs_after = fs, printed = [], raised = Some e\<rparr>
      | Inr fs' \<Rightarrow>
          (case zip_write_close zw fs' zip_name files of
             (fs'', Some e) \<Rightarrow> \<lparr>fs_after = fs'', printed = [], raised = Some e\<rparr>
           | (fs'', None) \<Rightarrow>
               \<lparr>fs_after = fs'', printed = [ZippingComplete zip_name], raised = None\<rparr>))"

subsection \<open>\<^verbatim>\<open>unzip_and_organize\<close>\<close>

text \<open>
  The names bound in the module's namespace when a function of the module runs: the
  imports of lines 4-9 and the six functions. A name used in a function body that is
  neither local nor here nor a builtin raises \<^verbatim>\<open>NameError\<close> when the line is reached;
  \<^verbatim>\<open>glob\<close> is not a builtin.
\<close>

definition module_globals :: "string list" where
  "module_globals =
     [''os'', ''shutil'', ''single'', ''multiplex'', ''zipfile'', ''json'', ''Counter'',
      ''clear_dir'', ''data_slicer'', ''update_gc_zip_annotation'', ''analyze_annotations'',
      ''zip_folder'', ''unzip_and_organize'']"

definition os_listdir :: "node \<Rightarrow> path \<Rightarrow> error + string list" where
  "os_listdir fs p =
     (case lookup fs p of
        None \<Rightarrow> Inl FileNotFoundError
      | Some (File _) \<Rightarrow> Inl NotADirectoryError
      | Some (Dir es) \<Rightarrow> Inr (map fst es))"

text \<open>\<^verbatim>\<open>os.path.splitext(name)[0]\<close>: the name up to its last dot, leading dots apart.\<close>

definition splitext_root :: "string \<Rightarrow> string" where
  "splitext_root name =
     (if CHR ''.'' \<in> set (dropWhile (\<lambda>c. c = CHR ''.'') name)
      then rev (tl (dropWhile (\<lambda>c. c \<noteq> CHR ''.'') (rev name)))
      else name)"

text \<open>Putting a node at a path whose parent is a directory.\<close>

fun place :: "node \<Rightarrow> path \<Rightarrow> node \<Rightarrow> error + node" where
  "place fs [] n = Inl FileExistsError"
| "place (File _) (x # p) n = Inl NotADirectoryError"
| "place (Dir es) [x] n = Inr (Dir (alist_set es x n))"
| "place (Dir es) (x # y # p) n =
     (case map_of es x of
        None \<Rightarrow> Inl FileNotFoundError
      | Some ch \<Rightarrow>
          (case place ch (y # p) n of
             Inl e \<Rightarrow> Inl e
           | Inr ch' \<Rightarrow> Inr (Dir (alist_set es x ch'))))"

text \<open>
  \<^verbatim>\<open>os.rename(src, dst)\<close>: a destination that exists is replaced only by a file over a
  file.
\<close>

definition os_rename :: "node \<Rightarrow> path \<Rightarrow> path \<Rightarrow> error + node" where
  "os_rename fs src dst =
     (case lookup fs src of
        None \<Rightarrow> Inl FileNotFoundError
      | Some n \<Rightarrow>
          (case lookup fs dst of
             Some (Dir _) \<Rightarrow> (if is_dir_node n then Inl FileExistsError else Inl IsADirectoryError)
           | Some (File _) \<Rightarrow>
               (if is_dir_node n then Inl NotADirectoryError else place (remove_at fs src) dst n)
           | None \<Rightarrow> place (remove_at fs src) dst n))"

text \<open>
  \<^verbatim>\<open>shutil.move(src, dst)\<close>: into \<open>dst\<close> when that is a directory, refusing a name that
  is taken there; a rename otherwise.
\<close>

definition shutil_move :: "node \<Rightarrow> path \<Rightarrow> path \<Rightarrow> error + node" where
  "shutil_move fs src dst =
     (if isdir fs dst then
        (if path_exists fs (dst @ [last src]) then Inl ShutilError
         else os_rename fs src (dst @ [last src]))
      else os_rename fs src dst)"

text \<open>Lines 285-286.\<close>

fun move_items :: "node \<Rightarrow> path \<Rightarrow> string list \<Rightarrow> path \<Rightarrow> node \<times> error option" where
  "move_items fs temp_extract_folder [] data_folder = (fs, None)"
| "move_items fs temp_extract_folder (item # items) data_folder =
     (case shutil_move fs (temp_extract_folder @ [item]) data_folder of
        Inl e \<Rightarrow> (fs, Some e)
      | Inr fs' \<Rightarrow> move_items fs' temp_extract_folder items data_folder)"

text \<open>Lines 269-286, the two cases.\<close>

definition place_extracted :: "node \<Rightarrow> path \<Rightarrow> path \<Rightarrow> string \<Rightarrow> string list
    \<Rightarrow> node \<times> error option" where
  "place_extracted fs data_folder temp_extract_folder zip_name extracted_items =
     (if length extracted_items = 1 \<and> hd extracted_items = zip_name then
        (case os_listdir fs (temp_extract_folder @ [zip_name]) of
           Inl e \<Rightarrow> (fs, Some e)
         | Inr extracted_contents \<Rightarrow>
             (let final_folder = data_folder @ [zip_name] in
              case (if path_exists fs final_folder then rmtree fs final_folder else Inr fs) of
                Inl e \<Rightarrow> (fs, Some e)
              | Inr fs' \<Rightarrow>
                  (case shutil_move fs' (temp_extract_folder @ [zip_name]) final_folder of
                     Inl e \<Rightarrow> (fs', Some e)
                   | Inr fs'' \<Rightarrow> (fs'', None))))
      else move_items fs temp_extract_folder extracted_items data_folder)"

text \<open>The body of the loop, lines 253-292, for one archive. Nothing here catches.\<close>

definition organize_one :: "node \<Rightarrow> path \<Rightarrow> path \<Rightarrow> node \<times> msg list \<times> error option" where
  "organize_one fs data_folder zip_file =
     (let temp_extract_folder = data_folder @ [''temp_extraction''] in
      case makedirs True fs temp_extract_folder of
        Inl e \<Rightarrow> (fs, [], Some e)
      | Inr fs1 \<Rightarrow>
     (case zip_read fs1 zip_file of
        Inl e \<Rightarrow> (fs1, [Unzipping zip_file], Some e)
      | Inr es \<Rightarrow>
     (case extractall fs1 temp_extract_folder es of
        (fs2, Some e) \<Rightarrow> (fs2, [Unzipping zip_file], Some e)
      | (fs2, None) \<Rightarrow>
     (case os_listdir fs2 temp_extract_folder of
        Inl e \<Rightarrow> (fs2, [Unzipping zip_file], Some e)
      | Inr extracted_items \<Rightarrow>
     (case place_extracted fs2 data_folder temp_extract_folder
             (splitext_root (last zip_file)) extracted_items of
        (fs3, Some e) \<Rightarrow> (fs3, [Unzipping zip_file], Some e)
      | (fs3, None) \<Rightarrow>
     (case os_remove fs3 zip_file of
        Inl e \<Rightarrow> (fs3, [Unzipping zip_file], Some e)
      | Inr fs4 \<Rightarrow>
     (case rmtree fs4 temp_extract_folder of
        Inl e \<Rightarrow> (fs4, [Unzipping zip_file], Some e)
      | Inr fs5 \<Rightarrow> (fs5, [Unzipping zip_file, Extracted zip_file data_folder], None))))))))"

fun organize_all :: "node \<Rightarrow> path \<Rightarrow> path list \<Rightarrow> node \<times> msg list \<times> error option" where
  "organize_all fs data_folder [] = (fs, [], None)"
| "organize_all fs data_folder (zip_file # zip_files) =
     (case organize_one fs data_folder zip_file of
        (fs', out, Some e) \<Rightarrow> (fs', out, Some e)
      | (fs', out, None) \<Rightarrow>
          (case organize_all fs' data_folder zip_files of
             (fs'', out', r) \<Rightarrow> (fs'', out @ out', r)))"

text \<open>
  The function as the module has it: line 250 looks the name \<^verbatim>\<open>glob\<close> up before anything
  else happens, and the module does not bind it. The call
  \<^verbatim>\<open>glob.glob(f"{data_folder}/*.zip")\<close> that would follow is not part of the module:
  \<open>zip_files\<close> stands for the list it would return.
\<close>

definition unzip_and_organize :: "path list \<Rightarrow> node \<Rightarrow> path \<Rightarrow> result" where
  "unzip_and_organize zip_files fs data_folder =
     (if ''glob'' \<in> set module_globals then
        (case organize_all fs data_folder zip_files of
           (fs', out, r) \<Rightarrow> \<lparr>fs_after = fs', printed = out, raised = r\<rparr>)
      else \<lparr>fs_after = fs, printed = [], raised = Some NameError\<rparr>)"

section \<open>Notions used in the statements\<close>




fun is_invalid_json :: "msg \<Rightarrow> bool" where
  "is_invalid_json (InvalidJson _) = True"
| "is_invalid_json _ = False"

text \<open>
  A JSON value that can be the key of a \<^verbatim>\<open>Counter\<close>: \<^verbatim>\<open>None\<close>, a boolean, a number or
  a string, and not a list or a dict.
\<close>

fun plain_value :: "json \<Rightarrow> bool" where
  "plain_value (JArr _) = False"
| "plain_value (JObj _) = False"
| "plain_value _ = True"

text \<open>
  A JSON object in which the field \<open>outer\<close>, when it is an object with the key
  \<open>inner\<close>, has a plain value there.
\<close>

definition plain_field :: "(string \<times> json) list \<Rightarrow> string \<Rightarrow> string \<Rightarrow> bool" where
  "plain_field kvs outer inner =
     (case map_of kvs outer of
        Some (JObj d) \<Rightarrow> (case map_of d inner of Some v \<Rightarrow> plain_value v | None \<Rightarrow> True)
      | _ \<Rightarrow> True)"

text \<open>
  The documents on which lines 187-195 raise nothing: an object whose
  \<^verbatim>\<open>annotations.name\<close> and \<^verbatim>\<open>sequence.location\<close> are plain where they exist, an array
  that has neither the string \<^verbatim>\<open>annotations\<close> nor the string \<^verbatim>\<open>sequence\<close> among its
  elements, a string that has neither of them as a substring. A number, a boolean and
  \<^verbatim>\<open>null\<close> are not among them.
\<close>

fun quiet :: "json \<Rightarrow> bool" where
  "quiet (JObj kvs) =
     (plain_field kvs ''annotations'' ''name'' \<and> plain_field kvs ''sequence'' ''location'')"
| "quiet (JArr xs) = (JStr ''annotations'' \<notin> set xs \<and> JStr ''sequence'' \<notin> set xs)"
| "quiet (JStr s) = (\<not> str_contains s ''annotations'' \<and> \<not> str_contains s ''sequence'')"
| "quiet _ = False"


text \<open>
  A file that the Patcher reads as a JSON object with top-level fields \<^verbatim>\<open>annotations\<close>
  and \<^verbatim>\<open>sequence\<close> that are both objects.
\<close>

definition has_both :: "content \<Rightarrow> bool" where
  "has_both c =
     (case text_load c of
        Parsed (JObj kvs) \<Rightarrow>
          (case map_of kvs ''annotations'' of
             Some (JObj _) \<Rightarrow> (case map_of kvs ''sequence'' of Some (JObj _) \<Rightarrow> True | _ \<Rightarrow> False)
           | _ \<Rightarrow> False)
      | _ \<Rightarrow> False)"

section \<open>Notions used in the proofs about the Patcher\<close>

text \<open>The bytes of the file at a path, when a file stands there.\<close>

definition fmap :: "node \<Rightarrow> path \<Rightarrow> content option" where
  "fmap fs p = (case lookup fs p of Some (File c) \<Rightarrow> Some c | _ \<Rightarrow> None)"

text \<open>The tree with the node at an existing path replaced.\<close>

fun graft :: "node \<Rightarrow> path \<Rightarrow> node \<Rightarrow> node" where
  "graft fs [] s = s"
| "graft (File c) (x # p) s = File c"
| "graft (Dir es) (x # p) s =
     (case map_of es x of
        None \<Rightarrow> Dir es
      | Some ch \<Rightarrow> Dir (alist_set es x (graft ch p s)))"

text \<open>
  The files of a tree as archive entries, named by their paths from the root, in the
  order of the walk: what step 5 writes for the temporary directory.
\<close>

definition tree_entries :: "node \<Rightarrow> entries" where
  "tree_entries t =
     concat (map (\<lambda>(rt, f). case lookup t (rt @ [f]) of
                               Some (File c) \<Rightarrow> [(rt @ [f], c)]
                             | _ \<Rightarrow> [])
               (walk_pairs t []))"

text \<open>
  What lines 113-127 make of the bytes of a file: the document with the two fields
  set, when the bytes parse and the update raises nothing.
\<close>

definition patchable :: "string \<Rightarrow> string \<Rightarrow> content \<Rightarrow> bool" where
  "patchable a b c =
     (case json_load_text c of
        Inl _ \<Rightarrow> False
      | Inr j \<Rightarrow> (case patch_data j a b of Inl _ \<Rightarrow> False | Inr _ \<Rightarrow> True))"

definition patched :: "string \<Rightarrow> string \<Rightarrow> content \<Rightarrow> content" where
  "patched a b c =
     (case json_load_text c of
        Inl _ \<Rightarrow> c
      | Inr j \<Rightarrow> (case patch_data j a b of Inl _ \<Rightarrow> c | Inr j' \<Rightarrow> Json j'))"

text \<open>The entries under the names that the extraction gives them.\<close>

definition sanitized :: "entries \<Rightarrow> entries" where
  "sanitized es = map (\<lambda>e. (sanitize (fst e), snd e)) es"

text \<open>The paths that the loop of step 4 rewrites, given the pairs of the walk.\<close>

definition fusion_paths :: "(path \<times> string) list \<Rightarrow> path set" where
  "fusion_paths ps = (\<lambda>(rt, f). rt @ [f]) ` {(rt, f) \<in> set ps. endswith f ''.fusion-data''}"

section \<open>Concrete archives and folders\<close>

text \<open>
  Some bytes: text that is not JSON, and a byte that is not text. The bytes of an
  archive with entries are taken as not decodable, as they are when the archive stores
  the mode of a regular file for an entry.
\<close>

definition plain_text :: "string \<Rightarrow> content" where
  "plain_text s = Bytes s Malformed Malformed"

definition bad_byte :: content where
  "bad_byte = Bytes [CHR 0x80] Undecodable Undecodable"

definition archive :: "entries \<Rightarrow> content" where
  "archive es = (if es = [] then Zip Malformed Malformed [] else Zip Undecodable Undecodable es)"

text \<open>
  A writer of archives whose copy of the growing archive ends, and one whose copy is
  stopped by the file system.
\<close>

definition writer :: zip_writer where
  "writer =
     \<lparr>archive_loads = (\<lambda>es. if es = [] then (Malformed, Malformed) else (Undecodable, Undecodable)),
      self_read = (\<lambda>es. Inr (Undecodable, Undecodable))\<rparr>"


text \<open>
  A folder \<^verbatim>\<open>Data\<close> that holds one archive \<^verbatim>\<open>run-GC.zip\<close>, and some archives to put
  there.
\<close>

definition gc_folder :: "entries \<Rightarrow> node" where
  "gc_folder es = Dir [(''Data'', Dir [(''run-GC.zip'', File (archive es))])]"



definition archive_b :: entries where
  "archive_b =
     [([''a.fusion-data''], Json (JObj [(''annotations'', JObj [(''name'', JStr ''A'')])])),
      ([''b.fusion-data''], Json (JArr []))]"

definition archive_c :: entries where
  "archive_c =
     [([''a.fusion-data''], Json (JObj [(''annotations'', JObj [(''name'', JStr ''A'')])])),
      ([''b.fusion-data''], Json (JInt 5))]"

definition archive_d :: entries where
  "archive_d =
     [([''a.fusion-data''], Json (JObj [(''annotations'', JObj [(''name'', JStr ''A'')])])),
      ([''b.fusion-data''], bad_byte)]"


definition archive_f :: entries where
  "archive_f =
     [([''a.fusion-data''], Json (JObj [(''annotations'', JObj [(''name'', JStr ''A'')])])),
      ([''b.fusion-data''], Json (JArr [JStr ''annotations'']))]"

definition archive_g :: entries where
  "archive_g =
     [([''a.fusion-data''], Json (JObj [(''annotations'', JObj [(''name'', JStr ''A'')])])),
      ([''b.fusion-data''], Json (JStr ''my sequence''))]"

text \<open>
  A folder \<^verbatim>\<open>Data\<close> without an archive named \<^verbatim>\<open>...-GC.zip\<close> (a backup file and a
  directory come close), beside a folder that has one.
\<close>

definition fs_plain :: node where
  "fs_plain =
     Dir [(''Data'', Dir [(''notes.txt'', File (plain_text ''n'')),
                          (''sub'', Dir [(''old-GC.zip.bak'', File (plain_text [])),
                                         (''x-GC.zip'', Dir [])])]),
          (''Other'', Dir [(''run-GC.zip'', File (archive []))])]"

text \<open>
  The folder \<^verbatim>\<open>D\<close> with \<^verbatim>\<open>foo.zip\<close>, whose only top-level entry is the folder
  \<^verbatim>\<open>foo\<close> with \<^verbatim>\<open>a.txt\<close> in it.
\<close>

definition fs_foo :: node where
  "fs_foo =
     Dir [(''D'', Dir [(''foo.zip'', File (archive [([''foo'', ''a.txt''], plain_text ''a'')]))])]"




text \<open>A folder whose only archive is not a ZIP file.\<close>

definition fs_bad :: node where
  "fs_bad = Dir [(''D'', Dir [(''bad.zip'', File (plain_text ''not a zip''))])]"

section \<open>The body of the Analyzer's inner \<^verbatim>\<open>try\<close>\<close>


lemma map_of_Some_in_fst: "map_of kvs k = Some v \<Longrightarrow> k \<in> fst ` set kvs"
  by (metis map_of_eq_None_iff option.distinct(1))

lemma has_dict_obj:
  "has_dict (JObj kvs) k = Inr (case map_of kvs k of Some (JObj d) \<Rightarrow> True | _ \<Rightarrow> False)"
  by (auto simp: has_dict_def map_of_eq_None_iff dest: map_of_Some_in_fst
      split: sum.splits bool.splits option.splits json.splits)

lemma has_dict_arr:
  "has_dict (JArr xs) k = (if JStr k \<in> set xs then Inl TypeError else Inr False)"
  by (simp add: has_dict_def)

lemma has_dict_str:
  "has_dict (JStr s) k = (if str_contains s k then Inl TypeError else Inr False)"
  by (simp add: has_dict_def)


lemma counter_incr_plain:
  "counter_incr c v = (if plain_value v then Inr (bump c v) else Inl TypeError)"
  by (cases v) (simp_all add: counter_incr_def)

lemma count_field_obj:
  "count_field (JObj kvs) outer inner s c =
     (case map_of kvs outer of
        Some (JObj d) \<Rightarrow> counter_incr c (case map_of d inner of Some v \<Rightarrow> v | None \<Rightarrow> JStr s)
      | _ \<Rightarrow> Inr c)"
  by (simp add: count_field_def has_dict_obj split: option.splits json.splits)

lemma count_field_obj_plain:
  "plain_field kvs outer inner \<Longrightarrow> \<exists>c'. count_field (JObj kvs) outer inner s c = Inr c'"
  by (auto simp: count_field_obj plain_field_def counter_incr_plain split: option.splits json.splits)

lemma count_field_obj_not_plain:
  "\<not> plain_field kvs outer inner \<Longrightarrow> count_field (JObj kvs) outer inner s c = Inl TypeError"
  by (auto simp: count_field_obj plain_field_def counter_incr_plain split: option.splits json.splits)



lemma json_load_stream_Inr: "json_load_stream c = Inr j \<longleftrightarrow> stream_load c = Parsed j"
  by (cases "stream_load c") (simp_all add: json_load_stream_def)

lemma tally_entry_parsed:
  "stream_load c = Parsed data \<Longrightarrow>
   tally_entry c st =
     (case count_field data ''annotations'' ''name'' ''No name field found'' (fst st) of
        Inl e \<Rightarrow> Inl e
      | Inr nc \<Rightarrow>
          (case count_field data ''sequence'' ''location'' ''No location field found'' (snd st) of
             Inl e \<Rightarrow> Inl e
           | Inr lc \<Rightarrow> Inr (nc, lc)))"
  by (simp add: tally_entry_def json_load_stream_def)

lemma tally_entry_malformed: "stream_load c = Malformed \<Longrightarrow> tally_entry c st = Inl JSONDecodeError"
  by (simp add: tally_entry_def json_load_stream_def)

lemma tally_entry_undecodable:
  "stream_load c = Undecodable \<Longrightarrow> tally_entry c st = Inl UnicodeDecodeError"
  by (simp add: tally_entry_def json_load_stream_def)






lemma tally_entry_not_quiet:
  assumes "stream_load c = Parsed j" and "\<not> quiet j"
  shows "tally_entry c st = Inl TypeError"
proof (cases j)
  case (JObj kvs)
  show ?thesis
  proof (cases "plain_field kvs ''annotations'' ''name''")
    case False
    from count_field_obj_not_plain[OF False] assms(1) JObj show ?thesis
      by (simp add: tally_entry_parsed)
  next
    case True
    with assms(2) JObj have "\<not> plain_field kvs ''sequence'' ''location''" by simp
    from count_field_obj_plain[OF True] obtain nc where
      "count_field (JObj kvs) ''annotations'' ''name'' ''No name field found'' (fst st) = Inr nc"
      by blast
    with count_field_obj_not_plain[OF \<open>\<not> plain_field kvs ''sequence'' ''location''\<close>] assms(1) JObj
    show ?thesis by (simp add: tally_entry_parsed)
  qed
next
  case (JArr xs)
  with assms show ?thesis
    by (auto simp: tally_entry_parsed count_field_def has_dict_arr)
next
  case (JStr s)
  with assms show ?thesis
    by (auto simp: tally_entry_parsed count_field_def has_dict_str)
qed (use assms in \<open>simp_all add: tally_entry_parsed count_field_def has_dict_def\<close>)

lemma tally_entry_passed_over:
  assumes "stream_load c = Parsed j" and "\<not> isinstance_dict j" and "quiet j"
  shows "tally_entry c st = Inr st"
  using assms
  by (cases j) (simp_all add: tally_entry_parsed count_field_def has_dict_arr has_dict_str)


section \<open>The loop of the Analyzer\<close>

lemma scan_out:
  "scan es ns st out = (out', r) \<Longrightarrow> \<exists>logs. out' = out @ logs \<and> (\<forall>m\<in>set logs. is_invalid_json m)"
proof (induction es ns st out rule: scan.induct)
  case (1 es st out)
  then show ?case by simp
next
  case (2 es n ns st out)
  then show ?case
    by (fastforce split: if_splits sum.splits error.splits)
qed

lemma scan_malformed_step:
  assumes "name_endswith n ''.fusion-data''" and "zip_open es n = Inr c"
    and "stream_load c = Malformed"
  shows "scan es (n # ns) st out = scan es ns st (out @ [InvalidJson n])"
  using assms by (simp add: tally_entry_malformed)

lemma scan_undecodable_step:
  assumes "name_endswith n ''.fusion-data''" and "zip_open es n = Inr c"
    and "stream_load c = Undecodable"
  shows "scan es (n # ns) st out = (out, Inl UnicodeDecodeError)"
  using assms by (simp add: tally_entry_undecodable)



lemma scan_aborts:
  assumes "name_endswith n ''.fusion-data''" and "zip_open es n = Inr c"
    and "\<And>st. \<exists>e. tally_entry c st = Inl e \<and> e \<noteq> JSONDecodeError"
  shows "n \<in> set ns \<Longrightarrow> \<exists>e. snd (scan es ns st out) = Inl e"
proof (induction ns arbitrary: st out)
  case Nil
  then show ?case by simp
next
  case (Cons k ns)
  show ?case
  proof (cases "k = n")
    case True
    from assms(3)[of st] obtain e where "tally_entry c st = Inl e" "e \<noteq> JSONDecodeError"
      by blast
    with True assms(1,2) show ?thesis by (cases e) simp_all
  next
    case False
    with Cons.prems have "n \<in> set ns" by simp
    from Cons.IH[OF this] show ?thesis
      by (auto split: sum.splits error.splits)
  qed
qed




lemma analyze_annotations_opened:
  assumes "locate_gc_zip fs d = Some zp" and "zip_read fs zp = Inr es"
  shows "printed (analyze_annotations fs d) = Located zp # analyze_entries es"
  using assms by (simp add: analyze_annotations_def)



section \<open>The Analyzer counts every annotated entry once\<close>




section \<open>The Analyzer and entries that do not decode\<close>

text \<open>
  C8. The comment of line 198 says that the inner handler skips the files that are not
  valid JSON, and the handler takes \<^verbatim>\<open>json.JSONDecodeError\<close> only. An entry whose bytes
  do not decode as text fails to parse with \<^verbatim>\<open>UnicodeDecodeError\<close>: it is not logged
  by name and not skipped, the operation-level handler ends the scan, and the tally of
  the entry counted before it is not printed.
\<close>

theorem C8_undecodable_entry_ends_scan:
  "zip_open archive_d [''b.fusion-data''] = Inr bad_byte
   \<and> json_load_stream bad_byte = Inl UnicodeDecodeError
   \<and> scan archive_d (map fst archive_d) ([], []) [] = ([], Inl UnicodeDecodeError)
   \<and> printed (analyze_annotations (gc_folder archive_d) [''Data'']) =
       [Located [''Data'', ''run-GC.zip''], ErrorOccurred UnicodeDecodeError]"
  by code_simp

section \<open>The Analyzer and entries that are not JSON objects\<close>

text \<open>
  C9, as stated, fails: a top-level array is not an object, yet the membership test on it
  is an element test that answers \<^verbatim>\<open>False\<close>; the entry is passed over and the tallies
  of the other entries are printed.
\<close>

theorem C9_counterexample:
  "zip_open archive_b [''b.fusion-data''] = Inr (Json (JArr []))
   \<and> \<not> isinstance_dict (JArr [])
   \<and> printed (analyze_annotations (gc_folder archive_b) [''Data'']) =
       [Located [''Data'', ''run-GC.zip''], NameHeader, NameLine (JStr ''A'') 1, LocationHeader]"
  by code_simp

text \<open>
  C9, amended. Take an entry ending in \<^verbatim>\<open>.fusion-data\<close> that parses as a JSON document
  that is not an object. If it is a number, a boolean or \<^verbatim>\<open>null\<close>, or an array with the
  string \<^verbatim>\<open>annotations\<close> or \<^verbatim>\<open>sequence\<close> among its elements, or a string with one of
  them as a substring, the body of the per-entry \<^verbatim>\<open>try\<close> raises \<^verbatim>\<open>TypeError\<close> on it,
  and the Analyzer prints, after the archive's path, nothing but lines naming invalid
  entries and one error line: no tally is printed. Any other array or string is passed
  over: the body leaves the counters as they are and the scan goes on with the next name.
\<close>

theorem C9_non_object_entry:
  assumes "locate_gc_zip fs d = Some zp" and "zip_read fs zp = Inr es"
    and "n \<in> set (map fst es)" and "name_endswith n ''.fusion-data''"
    and "zip_open es n = Inr c" and "stream_load c = Parsed j" and "\<not> isinstance_dict j"
  shows "(quiet j \<longrightarrow>
            tally_entry c st = Inr st \<and> scan es (n # ns) st out = scan es ns st out)
       \<and> (\<not> quiet j \<longrightarrow>
            tally_entry c st = Inl TypeError
            \<and> (\<exists>logs e. printed (analyze_annotations fs d) = Located zp # logs @ [ErrorOccurred e]
                  \<and> (\<forall>m\<in>set logs. is_invalid_json m)))"
proof (intro conjI impI)
  assume q: "quiet j"
  from tally_entry_passed_over[OF assms(6,7) q] show t: "tally_entry c st = Inr st" .
  with assms(4,5) show "scan es (n # ns) st out = scan es ns st out" by simp
next
  assume q: "\<not> quiet j"
  from tally_entry_not_quiet[OF assms(6) q] show "tally_entry c st = Inl TypeError" .
next
  assume q: "\<not> quiet j"
  obtain out r where sc: "scan es (map fst es) ([], []) [] = (out, r)"
    by (cases "scan es (map fst es) ([], []) []") auto
  have "\<exists>e. tally_entry c st = Inl e \<and> e \<noteq> JSONDecodeError" for st
    using tally_entry_not_quiet[OF assms(6) q, of st] by simp
  from scan_aborts[OF assms(4,5) this assms(3), of "([], [])" "[]"] sc obtain e where "r = Inl e"
    by auto
  with sc have "analyze_entries es = out @ [ErrorOccurred e]"
    by (simp add: analyze_entries_def)
  moreover from scan_out[OF sc] have "\<forall>m\<in>set out. is_invalid_json m" by auto
  ultimately show "\<exists>logs e. printed (analyze_annotations fs d) = Located zp # logs @ [ErrorOccurred e]
      \<and> (\<forall>m\<in>set logs. is_invalid_json m)"
    using analyze_annotations_opened[OF assms(1,2)] by auto
qed

theorem C9_non_object_entry_witness:
  "locate_gc_zip (gc_folder archive_f) [''Data''] = Some [''Data'', ''run-GC.zip'']
   \<and> zip_read (gc_folder archive_f) [''Data'', ''run-GC.zip''] = Inr archive_f
   \<and> [''b.fusion-data''] \<in> set (map fst archive_f)
   \<and> name_endswith [''b.fusion-data''] ''.fusion-data''
   \<and> zip_open archive_f [''b.fusion-data''] = Inr (Json (JArr [JStr ''annotations'']))
   \<and> \<not> quiet (JArr [JStr ''annotations''])
   \<and> tally_entry (Json (JArr [JStr ''annotations''])) ([], []) = Inl TypeError
   \<and> (\<exists>logs e. printed (analyze_annotations (gc_folder archive_f) [''Data''])
          = Located [''Data'', ''run-GC.zip''] # logs @ [ErrorOccurred e]
        \<and> (\<forall>m\<in>set logs. is_invalid_json m))
   \<and> zip_open archive_b [''b.fusion-data''] = Inr (Json (JArr []))
   \<and> quiet (JArr [])
   \<and> tally_entry (Json (JArr [])) ([], []) = Inr ([], [])"
proof -
  have h1: "locate_gc_zip (gc_folder archive_f) [''Data''] = Some [''Data'', ''run-GC.zip'']"
    by code_simp
  have h2: "zip_read (gc_folder archive_f) [''Data'', ''run-GC.zip''] = Inr archive_f"
    by code_simp
  have h3: "[''b.fusion-data''] \<in> set (map fst archive_f)"
    by code_simp
  have h4: "name_endswith [''b.fusion-data''] ''.fusion-data''"
    by code_simp
  have h5: "zip_open archive_f [''b.fusion-data''] = Inr (Json (JArr [JStr ''annotations'']))"
    by code_simp
  have h6: "stream_load (Json (JArr [JStr ''annotations''])) = Parsed (JArr [JStr ''annotations''])"
    by simp
  have h7: "\<not> isinstance_dict (JArr [JStr ''annotations''])"
    by simp
  have q: "\<not> quiet (JArr [JStr ''annotations''])"
    by simp
  have g1: "locate_gc_zip (gc_folder archive_b) [''Data''] = Some [''Data'', ''run-GC.zip'']"
    by code_simp
  have g2: "zip_read (gc_folder archive_b) [''Data'', ''run-GC.zip''] = Inr archive_b"
    by code_simp
  have g3: "[''b.fusion-data''] \<in> set (map fst archive_b)"
    by code_simp
  have g5: "zip_open archive_b [''b.fusion-data''] = Inr (Json (JArr []))"
    by code_simp
  have g6: "stream_load (Json (JArr [])) = Parsed (JArr [])"
    by simp
  have g7: "\<not> isinstance_dict (JArr [])"
    by simp
  have p: "quiet (JArr [])"
    by simp
  from C9_non_object_entry[OF h1 h2 h3 h4 h5 h6 h7, of "([], [])"]
    C9_non_object_entry[OF g1 g2 g3 h4 g5 g6 g7, of "([], [])"]
    h1 h2 h3 h4 h5 q g5 p
  show ?thesis by blast
qed

section \<open>Lemmas about the file system\<close>

subsection \<open>Association lists\<close>

lemma map_of_alist_set: "map_of (alist_set es x v) y = (if y = x then Some v else map_of es y)"
  by (induction es x v rule: alist_set.induct) auto

lemma map_fst_alist_set:
  "map_of es x = Some u \<Longrightarrow> map fst (alist_set es x v) = map fst es"
  by (induction es x v rule: alist_set.induct) (auto split: if_splits)

lemma alist_set_same: "map_of es x = Some v \<Longrightarrow> alist_set es x v = es"
  by (induction es x v rule: alist_set.induct) (auto split: if_splits)

lemma alist_set_twice: "alist_set (alist_set es x u) x v = alist_set es x v"
  by (induction es x u rule: alist_set.induct) auto

lemma alist_set_new: "map_of es x = None \<Longrightarrow> alist_set es x v = es @ [(x, v)]"
  by (induction es x v rule: alist_set.induct) (auto split: if_splits)


lemma map_of_filter_neq: "map_of (filter (\<lambda>e. fst e \<noteq> x) es) y = (if y = x then None else map_of es y)"
  by (induction es) auto

lemma filter_snoc_new:
  "map_of es x = None \<Longrightarrow> filter (\<lambda>e. fst e \<noteq> x) (es @ [(x, v)]) = es"
proof -
  assume "map_of es x = None"
  then have "\<forall>e\<in>set es. fst e \<noteq> x"
    by (metis map_of_eq_None_iff image_eqI)
  then show ?thesis by (simp add: filter_id_conv)
qed

subsection \<open>Induction over a tree\<close>

lemma node_induct [case_names File Dir]:
  assumes "\<And>c. P (File c)"
    and "\<And>es. (\<And>x ch. (x, ch) \<in> set es \<Longrightarrow> P ch) \<Longrightarrow> P (Dir es)"
  shows "P n"
proof (induction n)
  case (File c)
  show ?case by (rule assms(1))
next
  case (Dir es)
  show ?case
  proof (rule assms(2))
    fix x ch assume "(x, ch) \<in> set es"
    then show "P ch" using Dir[of "(x, ch)" ch] by simp
  qed
qed

lemma wf_children_iff: "wf_children es \<longleftrightarrow> (\<forall>(x, ch)\<in>set es. wf_node ch)"
  by (induction es) auto

lemma wf_child: "wf_node (Dir es) \<Longrightarrow> (x, ch) \<in> set es \<Longrightarrow> wf_node ch \<and> map_of es x = Some ch"
  by (auto simp: wf_children_iff)

lemma wf_lookup: "wf_node n \<Longrightarrow> lookup n p = Some m \<Longrightarrow> wf_node m"
proof (induction p arbitrary: n)
  case Nil
  then show ?case by simp
next
  case (Cons x p)
  then show ?case
    by (cases n) (auto split: option.splits dest!: map_of_SomeD simp: wf_children_iff)
qed

lemma lookup_append:
  "lookup n (p @ q) = (case lookup n p of None \<Rightarrow> None | Some m \<Rightarrow> lookup m q)"
proof (induction p arbitrary: n)
  case Nil
  then show ?case by simp
next
  case (Cons x p)
  then show ?case by (cases n) (auto split: option.splits)
qed

subsection \<open>The walk\<close>

lemma walk_children_concat:
  "walk_children r es = concat (map (\<lambda>(x, ch). walk_node (r @ [x]) ch) es)"
  by (induction es) auto

text \<open>Every file the walk reports is a file of the tree (soundness needs distinct names).\<close>

lemma walk_sound:
  assumes "wf_node n" and "(rt, ds, fnames) \<in> set (walk_node r n)" and "f \<in> set fnames"
  shows "\<exists>p c. rt = r @ p \<and> lookup n (p @ [f]) = Some (File c)"
  using assms
proof (induction n arbitrary: r rule: node_induct)
  case (File c)
  then show ?case by simp
next
  case (Dir es)
  from Dir.prems(2) consider "(rt, ds, fnames) = (r, dirnames es, filenames es)"
    | x ch where "(x, ch) \<in> set es" "(rt, ds, fnames) \<in> set (walk_node (r @ [x]) ch)"
    by (auto simp: walk_children_concat)
  then show ?case
  proof cases
    case 1
    with Dir.prems(3) obtain nd where "(f, nd) \<in> set es" "\<not> is_dir_node nd"
      by (auto simp: filenames_def)
    then obtain c where "(f, File c) \<in> set es" by (cases nd) auto
    with Dir.prems(1) have "map_of es f = Some (File c)" by (simp add: wf_child)
    with 1 show ?thesis by (intro exI[of _ "[]"]) simp
  next
    case 2
    with Dir.prems(1) have w: "wf_node ch" "map_of es x = Some ch" by (simp_all add: wf_child)
    from Dir.IH[OF 2(1) w(1) 2(2) Dir.prems(3)] obtain p c where
      "rt = (r @ [x]) @ p" "lookup ch (p @ [f]) = Some (File c)" by blast
    with w(2) show ?thesis by (intro exI[of _ "x # p"]) simp
  qed
qed

text \<open>Every file of the tree is reported.\<close>

lemma walk_complete:
  assumes "lookup n (p @ [f]) = Some (File c)"
  shows "\<exists>ds fnames. (r @ p, ds, fnames) \<in> set (walk_node r n) \<and> f \<in> set fnames"
  using assms
proof (induction p arbitrary: n r)
  case Nil
  then obtain es where n: "n = Dir es" and "map_of es f = Some (File c)"
    by (cases n) (auto split: option.splits)
  then have "(f, File c) \<in> set es" by (simp add: map_of_SomeD)
  then have "f \<in> set (filenames es)" by (force simp: filenames_def)
  with n show ?case by auto
next
  case (Cons x p)
  then obtain es ch where n: "n = Dir es" and ch: "map_of es x = Some ch"
    "lookup ch (p @ [f]) = Some (File c)"
    by (cases n) (auto split: option.splits)
  from Cons.IH[OF ch(2), of "r @ [x]"] obtain ds fnames where
    "(r @ x # p, ds, fnames) \<in> set (walk_node (r @ [x]) ch)" "f \<in> set fnames" by auto
  moreover from ch(1) have "(x, ch) \<in> set es" by (simp add: map_of_SomeD)
  ultimately show ?case using n by (force simp: walk_children_concat)
qed


section \<open>Folders without a \<^verbatim>\<open>-GC.zip\<close> archive\<close>

lemma first_gc_zip_None_iff:
  "first_gc_zip w = None \<longleftrightarrow> (\<forall>(rt, ds, fnames)\<in>set w. \<forall>f\<in>set fnames. \<not> endswith f ''-GC.zip'')"
proof (induction w rule: first_gc_zip.induct)
  case 1
  then show ?case by simp
next
  case (2 rt ds fnames rest)
  show ?case
  proof (cases "find (\<lambda>f. endswith f ''-GC.zip'') fnames")
    case None
    then have a: "first_gc_zip ((rt, ds, fnames) # rest) = first_gc_zip rest" by simp
    from None have b: "\<forall>f\<in>set fnames. \<not> endswith f ''-GC.zip''"
      by (simp add: find_None_iff)
    from "2.IH"[OF None] a b show ?thesis by simp
  next
    case (Some f)
    then have "f \<in> set fnames" "endswith f ''-GC.zip''"
      by (auto simp: find_Some_iff)
    with Some show ?thesis by auto
  qed
qed

lemma first_gc_zip_Some:
  "first_gc_zip w = Some zp \<Longrightarrow>
     \<exists>rt ds fnames f. (rt, ds, fnames) \<in> set w \<and> f \<in> set fnames \<and> endswith f ''-GC.zip'' \<and> zp = rt @ [f]"
proof (induction w rule: first_gc_zip.induct)
  case 1
  then show ?case by simp
next
  case (2 rt ds fnames rest)
  then show ?case
    by (fastforce simp: find_Some_iff split: option.splits)
qed

lemma os_walk_sound:
  assumes "wf_node fs" and "(rt, ds, fnames) \<in> set (os_walk fs d)" and "f \<in> set fnames"
  shows "\<exists>p c. rt = d @ p \<and> lookup fs (d @ p @ [f]) = Some (File c)"
proof -
  from assms(2) obtain n where n: "lookup fs d = Some n" "(rt, ds, fnames) \<in> set (walk_node d n)"
    by (cases "lookup fs d") (auto simp: os_walk_def)
  with assms(1) have "wf_node n" by (auto dest: wf_lookup)
  from walk_sound[OF this n(2) assms(3)] n(1) show ?thesis
    by (auto simp: lookup_append)
qed

lemma os_walk_complete:
  assumes "lookup fs (d @ p @ [f]) = Some (File c)"
  shows "\<exists>ds fnames. (d @ p, ds, fnames) \<in> set (os_walk fs d) \<and> f \<in> set fnames"
proof -
  from assms obtain n where n: "lookup fs d = Some n" "lookup n (p @ [f]) = Some (File c)"
    by (auto simp: lookup_append split: option.splits)
  from walk_complete[OF n(2), of d] n(1) show ?thesis by (simp add: os_walk_def)
qed

lemma locate_None:
  assumes "wf_node fs"
    and "\<forall>p f c. lookup fs (d @ p @ [f]) = Some (File c) \<longrightarrow> \<not> endswith f ''-GC.zip''"
  shows "locate_gc_zip fs d = None"
  unfolding locate_gc_zip_def first_gc_zip_None_iff
  using os_walk_sound[OF assms(1)] assms(2) by blast

lemma locate_None_walk:
  assumes "locate_gc_zip fs d = None"
  shows "\<forall>p f c. lookup fs (d @ p @ [f]) = Some (File c) \<longrightarrow> \<not> endswith f ''-GC.zip''"
  using assms os_walk_complete[of fs d]
  unfolding locate_gc_zip_def first_gc_zip_None_iff by blast

text \<open>
  C7. When no file below the directory, at any depth, has a name ending in \<^verbatim>\<open>-GC.zip\<close>,
  the Patcher and the Analyzer both print that no archive was found and return: no
  exception leaves them and the file system is as it was.
\<close>

theorem C7_no_gc_zip_untouched:
  assumes "wf_node fs"
    and "\<forall>p f c. lookup fs (d @ p @ [f]) = Some (File c) \<longrightarrow> \<not> endswith f ''-GC.zip''"
  shows "update_gc_zip_annotation zw fs d name loc
           = \<lparr>fs_after = fs, printed = [NoZipFound], raised = None\<rparr>
       \<and> analyze_annotations fs d = \<lparr>fs_after = fs, printed = [NoZipFound], raised = None\<rparr>"
  using locate_None[OF assms]
  by (simp add: update_gc_zip_annotation_def analyze_annotations_def)

theorem C7_no_gc_zip_untouched_witness:
  "wf_node fs_plain
   \<and> locate_gc_zip fs_plain [''Data''] = None
   \<and> update_gc_zip_annotation writer fs_plain [''Data''] ''X'' ''Y''
       = \<lparr>fs_after = fs_plain, printed = [NoZipFound], raised = None\<rparr>
   \<and> analyze_annotations fs_plain [''Data'']
       = \<lparr>fs_after = fs_plain, printed = [NoZipFound], raised = None\<rparr>"
proof -
  have h1: "wf_node fs_plain" by code_simp
  have l: "locate_gc_zip fs_plain [''Data''] = None" by code_simp
  then have h2: "\<forall>p f c. lookup fs_plain ([''Data''] @ p @ [f]) = Some (File c)
      \<longrightarrow> \<not> endswith f ''-GC.zip''"
    by (rule locate_None_walk)
  from C7_no_gc_zip_untouched[OF h1 h2, of writer "''X''" "''Y''"] h1 l show ?thesis by blast
qed


section \<open>The Normalizer stops at its first line\<close>

text \<open>
  C2. For every file system and every folder, \<^verbatim>\<open>unzip_and_organize\<close> raises
  \<^verbatim>\<open>NameError\<close> (the name \<^verbatim>\<open>glob\<close> is not bound in the module); it prints nothing and the
  file system is as it was: nothing has been extracted, moved or deleted. This holds
  whatever list of archives the standard library's \<^verbatim>\<open>glob.glob\<close> would have returned.
\<close>

theorem C2_normalizer_raises_name_error:
  "unzip_and_organize zip_files fs data_folder
     = \<lparr>fs_after = fs, printed = [], raised = Some NameError\<rparr>"
  by (simp add: unzip_and_organize_def module_globals_def)

text \<open>
  C6. On the folder \<^verbatim>\<open>D\<close> with \<^verbatim>\<open>foo.zip\<close> the call raises \<^verbatim>\<open>NameError\<close>:
  afterwards \<^verbatim>\<open>D/foo.zip\<close> is still there and \<^verbatim>\<open>D/foo/a.txt\<close> is not.
\<close>

theorem C6_normalizer_scenario_fails:
  "raised (unzip_and_organize zip_files fs_foo [''D'']) = Some NameError
   \<and> path_exists (fs_after (unzip_and_organize zip_files fs_foo [''D''])) [''D'', ''foo.zip'']
   \<and> \<not> path_exists (fs_after (unzip_and_organize zip_files fs_foo [''D''])) [''D'', ''foo'', ''a.txt'']"
proof -
  have "unzip_and_organize zip_files fs_foo [''D'']
      = \<lparr>fs_after = fs_foo, printed = [], raised = Some NameError\<rparr>"
    by (simp add: unzip_and_organize_def module_globals_def)
  moreover have "path_exists fs_foo [''D'', ''foo.zip'']"
    by code_simp
  moreover have "\<not> path_exists fs_foo [''D'', ''foo'', ''a.txt'']"
    by code_simp
  ultimately show ?thesis by simp
qed

text \<open>
  The loop of lines 252-292 itself, given the list with the one archive of the folder,
  which is what \<^verbatim>\<open>glob.glob\<close> of the standard library returns there, does what the
  scenario describes.
\<close>

lemma normalizer_loop_scenario:
  "organize_all fs_foo [''D''] [[''D'', ''foo.zip'']]
     = (Dir [(''D'', Dir [(''foo'', Dir [(''a.txt'', File (plain_text ''a''))])])],
        [Unzipping [''D'', ''foo.zip''], Extracted [''D'', ''foo.zip''] [''D'']], None)"
  by code_simp

subsection \<open>Writing a file\<close>






lemma dirnames_alist_set:
  "map_of es x = Some ch \<Longrightarrow> is_dir_node ch' = is_dir_node ch
     \<Longrightarrow> dirnames (alist_set es x ch') = dirnames es"
  by (induction es x ch' rule: alist_set.induct) (auto simp: dirnames_def split: if_splits)

lemma filenames_alist_set:
  "map_of es x = Some ch \<Longrightarrow> is_dir_node ch' = is_dir_node ch
     \<Longrightarrow> filenames (alist_set es x ch') = filenames es"
  by (induction es x ch' rule: alist_set.induct) (auto simp: filenames_def split: if_splits)

lemma walk_children_alist_set:
  "map_of es x = Some ch \<Longrightarrow> walk_node (r @ [x]) ch' = walk_node (r @ [x]) ch
     \<Longrightarrow> walk_children r (alist_set es x ch') = walk_children r es"
  by (induction es x ch' rule: alist_set.induct) (auto split: if_splits)

text \<open>Replacing the bytes of a file changes no listing.\<close>

lemma write_file_existing_walk:
  "lookup fs p = Some (File c0) \<Longrightarrow> write_file fs p c = Inr fs'
     \<Longrightarrow> walk_node r fs' = walk_node r fs \<and> is_dir_node fs' = is_dir_node fs"
proof (induction fs p c arbitrary: fs' r rule: write_file.induct)
  case (4 es x p c)
  from "4.prems"(1) obtain ch where ch: "map_of es x = Some ch" "lookup ch p = Some (File c0)"
    by (auto split: option.splits)
  with "4.prems"(2) obtain ch' where ch': "write_file ch p c = Inr ch'"
    and fs': "fs' = Dir (alist_set es x ch')"
    by (auto split: sum.splits)
  from "4.IH"[OF ch(1) ch(2) ch'] have
    "\<And>r. walk_node r ch' = walk_node r ch" "is_dir_node ch' = is_dir_node ch" by auto
  with ch(1) fs' show ?case
    by (simp add: dirnames_alist_set filenames_alist_set walk_children_alist_set)
qed auto



section \<open>The Packager\<close>
















text \<open>
  The scenario of the specification, with no archive from an earlier run: the files of
  the folder, without \<^verbatim>\<open>holder.gitignore\<close>.
\<close>

lemma packager_scenario:
  "zip_folder zw
     (Dir [(''Output'', Dir [(''a.txt'', File (plain_text ''a'')),
                            (''sub'', Dir [(''b.txt'', File (plain_text ''b''))]),
                            (''holder.gitignore'', File (plain_text []))])])
     [''Output''] [''Output'', ''output.zip'']
   = \<lparr>fs_after =
        Dir [(''Output'', Dir [(''a.txt'', File (plain_text ''a'')),
                               (''sub'', Dir [(''b.txt'', File (plain_text ''b''))]),
                               (''holder.gitignore'', File (plain_text [])),
                               (''output.zip'',
                                File (Zip (fst (archive_loads zw [([''a.txt''], plain_text ''a''),
                                                                   ([''sub'', ''b.txt''], plain_text ''b'')]))
                                          (snd (archive_loads zw [([''a.txt''], plain_text ''a''),
                                                                   ([''sub'', ''b.txt''], plain_text ''b'')]))
                                          [([''a.txt''], plain_text ''a''),
                                           ([''sub'', ''b.txt''], plain_text ''b'')]))])],
      printed = [ZippingComplete [''Output'', ''output.zip'']], raised = None\<rparr>"
  by (simp add: zip_folder_def files_to_zip_def walk_pairs_def os_walk_def dirnames_def
      filenames_def zip_open_w_def zip_write_close_def zip_source_def read_file_def)

section \<open>The temporary directories\<close>

subsection \<open>Directories stay directories\<close>



lemma isdir_File_Cons: "isdir (File c) (x # q) = False"
  by (simp add: isdir_def)



lemma lookup_new_dirs: "lookup (new_dirs p) q = (if prefix q p then Some (new_dirs (drop (length q) p)) else None)"
proof (induction p arbitrary: q)
  case Nil
  then show ?case by (cases q) auto
next
  case (Cons x p)
  then show ?case by (cases q) auto
qed

lemma is_dir_new_dirs: "is_dir_node (new_dirs p)"
  by (cases p) auto



subsection \<open>Removing a tree\<close>

lemma lookup_remove_at_same: "p \<noteq> [] \<Longrightarrow> lookup (remove_at fs p) p = None"
proof (induction fs p rule: remove_at.induct)
  case (4 es x y p)
  then show ?case by (auto simp: map_of_alist_set split: option.splits)
qed (auto simp: map_of_filter_neq)

lemma lookup_remove_at_below: "p \<noteq> [] \<Longrightarrow> prefix p q \<Longrightarrow> lookup (remove_at fs p) q = None"
  using lookup_remove_at_same[of p fs]
  by (auto simp: prefix_def lookup_append)

lemma lookup_remove_at_other:
  "\<not> prefix p q \<Longrightarrow> \<not> prefix q p \<Longrightarrow> lookup (remove_at fs p) q = lookup fs q"
proof (induction fs p arbitrary: q rule: remove_at.induct)
  case (1 n)
  then show ?case by simp
next
  case (2 c x p)
  then show ?case by simp
next
  case (3 es x)
  then show ?case by (cases q) (auto simp: map_of_filter_neq)
next
  case (4 es x y p)
  then show ?case
    by (cases q) (auto simp: map_of_alist_set split: option.splits)
qed



lemma rmtree_Inr: "rmtree fs p = Inr fs' \<Longrightarrow> fs' = remove_at fs p \<and> isdir fs p"
  by (auto simp: rmtree_def isdir_def split: option.splits node.splits)

subsection \<open>The steps of the Patcher keep directories\<close>







subsection \<open>The temporary directory of the Patcher\<close>











end
